theory Spec2Isabelle
  imports Main "HOL-Library.AList"
begin

section \<open>Values, objects and exceptions\<close>

text \<open>
  A row fetched by \<^verbatim>\<open>cursor.execute(...).fetchall()\<close> is a tuple of SQLite values.
  NULL, INTEGER and TEXT are modelled; REAL and BLOB values are left out (in the row
  mapper a non-empty one takes the branch of a non-zero INTEGER).
\<close>

datatype sqlval = SNull | SInt int | SText string

text \<open>
  Python values an attribute can hold: what \<^verbatim>\<open>json.loads\<close> and
  \<^verbatim>\<open>ast.literal_eval\<close> produce, and instances of the \<^verbatim>\<open>ctat\<close> dataclasses.
  An instance (\<open>PObj\<close>) is a pair: the attributes its class defines (methods, documentation
  string, defaults of fields), with the value that reading each of them gives, and its
  instance dictionary, in insertion order. \<^verbatim>\<open>hasattr\<close> and attribute access look in the
  instance dictionary and then in the class; \<^verbatim>\<open>vars\<close> is the instance dictionary alone, and
  \<^verbatim>\<open>setattr\<close> writes there (the names whose assignment the interpreter intercepts, such as
  \<^verbatim>\<open>__class__\<close> and \<^verbatim>\<open>__dict__\<close>, are given no treatment of their own). \<open>PMethod\<close> stands
  for what reading a method gives.
  \<^verbatim>\<open>UserAnnotation(k, v)\<close> is kept as its two constructor arguments, the class being
  declared outside the sources.
\<close>

datatype pyval =
    PNone
  | PBool bool
  | PInt int
  | PStr string
  | PList "pyval list"
  | PDict "(string \<times> pyval) list"
  | PObj "(string \<times> pyval) list \<times> (string \<times> pyval) list"
  | PMethod
  | PUserAnnotation string string

type_synonym pyobj = "(string \<times> pyval) list \<times> (string \<times> pyval) list"

datatype error =
    IndexError
  | ValueError
  | AttributeError
  | TypeError
  | KeyError
  | LiteralEvalError
  | JSONDecodeError
  | OperationalError

text \<open>
  What the module takes from outside: \<^verbatim>\<open>ast.literal_eval\<close> and \<^verbatim>\<open>json.loads\<close>
  (\<open>None\<close> when they raise), and the instances the \<^verbatim>\<open>ctat\<close> constructors return
  for the arguments the module passes: \<^verbatim>\<open>CellTypeAnnotation("", list())\<close>,
  \<^verbatim>\<open>Annotation("", "")\<close>, \<^verbatim>\<open>Labelset("", "")\<close>,
  \<^verbatim>\<open>AutomatedAnnotation("", "", "", "")\<close>, \<^verbatim>\<open>AnnotationTransfer("", "", "", "", "")\<close>.
\<close>

record env =
  literal_eval :: "string \<Rightarrow> pyval option"
  json_loads :: "string \<Rightarrow> pyval option"
  new_CellTypeAnnotation :: pyobj
  new_Annotation :: pyobj
  new_Labelset :: pyobj
  new_AutomatedAnnotation :: pyobj
  new_AnnotationTransfer :: pyobj

text \<open>A database: the columns and rows of each view; \<open>None\<close> when the query fails.\<close>

type_synonym view = "string list \<times> sqlval list list"

type_synonym database = "string \<Rightarrow> view option"

section \<open>Python primitives\<close>

text \<open>\<^verbatim>\<open>xs.index(x)\<close>: the first position of \<open>x\<close>; \<open>None\<close> stands for ValueError.\<close>

fun py_index :: "'a list \<Rightarrow> 'a \<Rightarrow> nat option" where
  "py_index [] x = None"
| "py_index (y # ys) x = (if y = x then Some 0 else map_option Suc (py_index ys x))"

text \<open>\<^verbatim>\<open>row[columns.index(column)]\<close>\<close>

definition cell :: "string list \<Rightarrow> sqlval list \<Rightarrow> string \<Rightarrow> error + sqlval" where
  "cell columns row column =
     (case py_index columns column of
        None \<Rightarrow> Inl ValueError
      | Some i \<Rightarrow> if i < length row then Inr (row ! i) else Inl IndexError)"

fun truthy_sql :: "sqlval \<Rightarrow> bool" where
  "truthy_sql SNull = False"
| "truthy_sql (SInt i) = (i \<noteq> 0)"
| "truthy_sql (SText s) = (s \<noteq> [])"

fun truthy :: "pyval \<Rightarrow> bool" where
  "truthy PNone = False"
| "truthy (PBool b) = b"
| "truthy (PInt i) = (i \<noteq> 0)"
| "truthy (PStr s) = (s \<noteq> [])"
| "truthy (PList xs) = (xs \<noteq> [])"
| "truthy (PDict d) = (d \<noteq> [])"
| "truthy (PObj obj) = True"
| "truthy PMethod = True"
| "truthy (PUserAnnotation k v) = True"

definition startswith :: "string \<Rightarrow> string \<Rightarrow> bool" where
  "startswith s p = (take (length p) s = p)"

definition endswith :: "string \<Rightarrow> string \<Rightarrow> bool" where
  "endswith s p = (length p \<le> length s \<and> drop (length s - length p) s = p)"

definition class_attrs :: "pyobj \<Rightarrow> (string \<times> pyval) list" where
  "class_attrs obj = fst obj"

definition py_vars :: "pyobj \<Rightarrow> (string \<times> pyval) list" where
  "py_vars obj = snd obj"

definition hasattr :: "pyobj \<Rightarrow> string \<Rightarrow> bool" where
  "hasattr obj name = (map_of (py_vars obj) name \<noteq> None \<or> map_of (class_attrs obj) name \<noteq> None)"

definition setattr :: "pyobj \<Rightarrow> string \<Rightarrow> pyval \<Rightarrow> pyobj" where
  "setattr obj name v = (class_attrs obj, AList.update name v (py_vars obj))"

text \<open>
  \<^verbatim>\<open>v.name\<close> on any value: \<open>None\<close> stands for AttributeError. None of the names the
  module reads is an attribute of a value that is not an instance.
\<close>

fun getattr :: "pyval \<Rightarrow> string \<Rightarrow> pyval option" where
  "getattr (PObj obj) name =
     (case map_of (py_vars obj) name of
        Some v \<Rightarrow> Some v
      | None \<Rightarrow> map_of (class_attrs obj) name)"
| "getattr _ name = None"

text \<open>The elements a \<^verbatim>\<open>for\<close> loop draws from a value; \<open>None\<close> stands for TypeError.\<close>

fun py_iter :: "pyval \<Rightarrow> pyval list option" where
  "py_iter (PList xs) = Some xs"
| "py_iter (PStr s) = Some (map (\<lambda>c. PStr [c]) s)"
| "py_iter (PDict d) = Some (map (\<lambda>kv. PStr (fst kv)) d)"
| "py_iter _ = None"

text \<open>\<^verbatim>\<open>str(v)\<close> of a row value.\<close>

definition digit_char :: "nat \<Rightarrow> char" where
  "digit_char d =
     (if d = 0 then CHR ''0'' else if d = 1 then CHR ''1'' else if d = 2 then CHR ''2''
      else if d = 3 then CHR ''3'' else if d = 4 then CHR ''4'' else if d = 5 then CHR ''5''
      else if d = 6 then CHR ''6'' else if d = 7 then CHR ''7'' else if d = 8 then CHR ''8''
      else CHR ''9'')"

function str_nat :: "nat \<Rightarrow> string" where
  "str_nat n = (if n < 10 then [digit_char n] else str_nat (n div 10) @ [digit_char (n mod 10)])"
  by pat_completeness auto

termination
  by (relation "measure (\<lambda>n. n)") auto

declare str_nat.simps [simp del]

fun py_str :: "sqlval \<Rightarrow> string" where
  "py_str SNull = ''None''"
| "py_str (SInt i) = (if i < 0 then CHR ''-'' # str_nat (nat (- i)) else str_nat (nat i))"
| "py_str (SText s) = s"

section \<open>The row mapper\<close>

text \<open>
  A mutating call is modelled by the exception it raised, if any, and the object as the
  call left it.
\<close>

type_synonym outcome = "error option \<times> pyobj"

text \<open>Lines 166 to 171: the positional assignment of one column.\<close>

definition set_positional :: "env \<Rightarrow> pyobj \<Rightarrow> string list \<Rightarrow> sqlval list \<Rightarrow> string \<Rightarrow> outcome" where
  "set_positional E obj columns row column =
     (if hasattr obj column then
        (case cell columns row column of
           Inl e \<Rightarrow> (Some e, obj)
         | Inr v \<Rightarrow>
             if truthy_sql v then
               (case v of
                  SText s \<Rightarrow>
                    if startswith s ''['' \<and> endswith s '']'' then
                      (case literal_eval E s of
                         None \<Rightarrow> (Some LiteralEvalError, obj)
                       | Some l \<Rightarrow> (None, setattr obj column l))
                    else (None, setattr obj column (PStr s))
                | _ \<Rightarrow> (Some AttributeError, obj))
             else (None, obj))
      else (None, obj))"

text \<open>Lines 176 and 177: one override record.\<close>

fun apply_message :: "string list \<Rightarrow> pyobj \<Rightarrow> pyval \<Rightarrow> outcome" where
  "apply_message columns obj (PDict d) =
     (case map_of d ''column'' of
        None \<Rightarrow> (Some KeyError, obj)
      | Some (PStr k) \<Rightarrow>
          if k \<in> set columns then
            (case map_of d ''value'' of
               None \<Rightarrow> (Some KeyError, obj)
             | Some v \<Rightarrow> (None, setattr obj k v))
          else (None, obj)
      | Some _ \<Rightarrow> (None, obj))"
| "apply_message columns obj _ = (Some TypeError, obj)"

text \<open>Line 175: the loop over the decoded records, stopping at the first exception.\<close>

fun apply_messages :: "string list \<Rightarrow> pyobj \<Rightarrow> pyval list \<Rightarrow> outcome" where
  "apply_messages columns obj [] = (None, obj)"
| "apply_messages columns obj (msg # msgs) =
     (case apply_message columns obj msg of
        (Some e, obj') \<Rightarrow> (Some e, obj')
      | (None, obj') \<Rightarrow> apply_messages columns obj' msgs)"

text \<open>Lines 172 to 177.\<close>

definition process_message :: "env \<Rightarrow> pyobj \<Rightarrow> string list \<Rightarrow> sqlval list \<Rightarrow> outcome" where
  "process_message E obj columns row =
     (if ''message'' \<in> set columns then
        (case cell columns row ''message'' of
           Inl e \<Rightarrow> (Some e, obj)
         | Inr m \<Rightarrow>
             if truthy_sql m then
               (case m of
                  SText s \<Rightarrow>
                    (case json_loads E s of
                       None \<Rightarrow> (Some JSONDecodeError, obj)
                     | Some messages \<Rightarrow>
                         (case py_iter messages of
                            None \<Rightarrow> (Some TypeError, obj)
                          | Some msgs \<Rightarrow> apply_messages columns obj msgs))
                | _ \<Rightarrow> (Some TypeError, obj))
             else (None, obj))
      else (None, obj))"

text \<open>The loop of line 165 over the columns still to visit.\<close>

fun fill_loop :: "env \<Rightarrow> string list \<Rightarrow> sqlval list \<Rightarrow> pyobj \<Rightarrow> string list \<Rightarrow> outcome" where
  "fill_loop E columns row obj [] = (None, obj)"
| "fill_loop E columns row obj (column # rest) =
     (case set_positional E obj columns row column of
        (Some e, obj1) \<Rightarrow> (Some e, obj1)
      | (None, obj1) \<Rightarrow>
          (case process_message E obj1 columns row of
             (Some e, obj2) \<Rightarrow> (Some e, obj2)
           | (None, obj2) \<Rightarrow> fill_loop E columns row obj2 rest))"

definition auto_fill_object_from_row :: "env \<Rightarrow> pyobj \<Rightarrow> string list \<Rightarrow> sqlval list \<Rightarrow> outcome" where
  "auto_fill_object_from_row E obj columns row = fill_loop E columns row obj columns"

section \<open>Section parsers\<close>

text \<open>\<^verbatim>\<open>xs.append(x)\<close>: only a list has the method.\<close>

fun py_append :: "pyval \<Rightarrow> pyval \<Rightarrow> error + pyval" where
  "py_append (PList xs) x = Inr (PList (xs @ [x]))"
| "py_append _ x = Inl AttributeError"

text \<open>\<^verbatim>\<open>cursor.execute("SELECT * FROM {}_view".format(table_name))\<close>\<close>

definition select_view :: "database \<Rightarrow> string \<Rightarrow> error + view" where
  "select_view db table_name =
     (case db (table_name @ ''_view'') of None \<Rightarrow> Inl OperationalError | Some v \<Rightarrow> Inr v)"

definition parse_metadata_data :: "env \<Rightarrow> database \<Rightarrow> pyobj \<Rightarrow> string \<Rightarrow> error + (bool \<times> pyobj)" where
  "parse_metadata_data E db cta table_name =
     (case select_view db table_name of
        Inl e \<Rightarrow> Inl e
      | Inr (columns, rows) \<Rightarrow>
          (case rows of
             [] \<Rightarrow> Inr (False, cta)
           | row # _ \<Rightarrow>
               (case auto_fill_object_from_row E cta columns row of
                  (Some e, _) \<Rightarrow> Inl e
                | (None, cta') \<Rightarrow> Inr (True, cta'))))"

text \<open>
  Lines 75 to 79: the loop that collects the user annotations of one row. The test of
  line 78 is on \<^verbatim>\<open>vars(annotation)\<close>, the instance dictionary.
\<close>

fun user_annotations_loop ::
  "pyobj \<Rightarrow> string list \<Rightarrow> sqlval list \<Rightarrow> pyval list \<Rightarrow> string list \<Rightarrow> error + pyval list" where
  "user_annotations_loop obj columns row user_annotations [] = Inr user_annotations"
| "user_annotations_loop obj columns row user_annotations (column # rest) =
     (if map_of (py_vars obj) column = None \<and> \<not> List.member [''row_number'', ''message''] column then
        (case cell columns row column of
           Inl e \<Rightarrow> Inl e
         | Inr v \<Rightarrow>
             user_annotations_loop obj columns row
               (user_annotations @ [PUserAnnotation column (py_str v)]) rest)
      else user_annotations_loop obj columns row user_annotations rest)"

text \<open>Lines 72 to 80: the annotation built from one row.\<close>

definition annotation_row :: "env \<Rightarrow> string list \<Rightarrow> sqlval list \<Rightarrow> error + pyobj" where
  "annotation_row E columns row =
     (case auto_fill_object_from_row E (new_Annotation E) columns row of
        (Some e, _) \<Rightarrow> Inl e
      | (None, annotation) \<Rightarrow>
          (case user_annotations_loop annotation columns row [] columns of
             Inl e \<Rightarrow> Inl e
           | Inr user_annotations \<Rightarrow>
               Inr (setattr annotation ''user_annotations'' (PList user_annotations))))"

fun annotation_rows :: "env \<Rightarrow> string list \<Rightarrow> pyval \<Rightarrow> sqlval list list \<Rightarrow> error + pyval" where
  "annotation_rows E columns annotations [] = Inr annotations"
| "annotation_rows E columns annotations (row # rows) =
     (case annotation_row E columns row of
        Inl e \<Rightarrow> Inl e
      | Inr annotation \<Rightarrow>
          (case py_append annotations (PObj annotation) of
             Inl e \<Rightarrow> Inl e
           | Inr annotations' \<Rightarrow> annotation_rows E columns annotations' rows))"

definition parse_annotation_data :: "env \<Rightarrow> database \<Rightarrow> pyobj \<Rightarrow> string \<Rightarrow> error + pyobj" where
  "parse_annotation_data E db cta table_name =
     (case select_view db table_name of
        Inl e \<Rightarrow> Inl e
      | Inr (columns, rows) \<Rightarrow>
          if length rows > 0 then
            (case getattr (PObj cta) ''annotations'' of
               None \<Rightarrow> Inl AttributeError
             | Some cur \<Rightarrow>
                 (case annotation_rows E columns (if \<not> truthy cur then PList [] else cur) rows of
                    Inl e \<Rightarrow> Inl e
                  | Inr annotations \<Rightarrow> Inr (setattr cta ''annotations'' annotations)))
          else Inr cta)"

text \<open>\<^verbatim>\<open>s.replace(old, new)\<close>: every occurrence, left to right, without overlap.\<close>

function py_replace :: "string \<Rightarrow> string \<Rightarrow> string \<Rightarrow> string" where
  "py_replace s old new =
     (if old = [] then new @ concat (map (\<lambda>c. c # new) s)
      else if s = [] then []
      else if startswith s old then new @ py_replace (drop (length old) s) old new
      else hd s # py_replace (tl s) old new)"
  by pat_completeness auto

termination
  by (relation "measure (\<lambda>(s, old, new). length s)") auto

declare py_replace.simps [simp del]

text \<open>Line 102.\<close>

definition renamed_columns :: "string list \<Rightarrow> string list" where
  "renamed_columns columns = map (\<lambda>c. py_replace c ''automated_annotation_'' []) columns"

text \<open>Lines 104 to 110: the labelset built from one row.\<close>

definition labelset_row :: "env \<Rightarrow> string list \<Rightarrow> sqlval list \<Rightarrow> error + pyobj" where
  "labelset_row E columns row =
     (case auto_fill_object_from_row E (new_Labelset E) columns row of
        (Some e, _) \<Rightarrow> Inl e
      | (None, labelset) \<Rightarrow>
          (case cell (renamed_columns columns) row ''algorithm_name'' of
             Inl e \<Rightarrow> Inl e
           | Inr v \<Rightarrow>
               if truthy_sql v then
                 (case auto_fill_object_from_row E (new_AutomatedAnnotation E)
                         (renamed_columns columns) row of
                    (Some e, _) \<Rightarrow> Inl e
                  | (None, automated_annotation) \<Rightarrow>
                      Inr (setattr labelset ''automated_annotation'' (PObj automated_annotation)))
               else Inr labelset))"

fun labelset_rows :: "env \<Rightarrow> string list \<Rightarrow> pyval \<Rightarrow> sqlval list list \<Rightarrow> error + pyval" where
  "labelset_rows E columns labelsets [] = Inr labelsets"
| "labelset_rows E columns labelsets (row # rows) =
     (case labelset_row E columns row of
        Inl e \<Rightarrow> Inl e
      | Inr labelset \<Rightarrow>
          (case py_append labelsets (PObj labelset) of
             Inl e \<Rightarrow> Inl e
           | Inr labelsets' \<Rightarrow> labelset_rows E columns labelsets' rows))"

definition parse_labelset_data :: "env \<Rightarrow> database \<Rightarrow> pyobj \<Rightarrow> string \<Rightarrow> error + pyobj" where
  "parse_labelset_data E db cta table_name =
     (case select_view db table_name of
        Inl e \<Rightarrow> Inl e
      | Inr (columns, rows) \<Rightarrow>
          if length rows > 0 then
            (case getattr (PObj cta) ''labelsets'' of
               None \<Rightarrow> Inl AttributeError
             | Some cur \<Rightarrow>
                 (case labelset_rows E columns (if \<not> truthy cur then PList [] else cur) rows of
                    Inl e \<Rightarrow> Inl e
                  | Inr labelsets \<Rightarrow> Inr (setattr cta ''labelsets'' labelsets)))
          else Inr cta)"

section \<open>The annotation transfer parser\<close>

text \<open>\<^verbatim>\<open>a == v\<close> for an attribute value and a row value (\<^verbatim>\<open>True == 1\<close> in Python).\<close>

fun eq_sql :: "pyval \<Rightarrow> sqlval \<Rightarrow> bool" where
  "eq_sql (PStr s) (SText t) = (s = t)"
| "eq_sql (PInt i) (SInt j) = (i = j)"
| "eq_sql (PBool b) (SInt j) = ((if b then 1 else 0) = j)"
| "eq_sql PNone SNull = True"
| "eq_sql _ _ = False"

text \<open>
  Lines 129 and 130: the test of the list comprehension on each annotation, in order;
  the annotations kept are those at the positions that hold \<open>True\<close>.
\<close>

fun annotation_matches :: "pyval list \<Rightarrow> sqlval \<Rightarrow> error + bool list" where
  "annotation_matches [] t = Inr []"
| "annotation_matches (a # as) t =
     (case getattr a ''cell_set_accession'' of
        None \<Rightarrow> Inl AttributeError
      | Some acc \<Rightarrow>
          (case annotation_matches as t of
             Inl e \<Rightarrow> Inl e
           | Inr bs \<Rightarrow> Inr (eq_sql acc t # bs)))"

text \<open>Lines 134 to 137 on the first annotation kept.\<close>

definition append_transfer :: "pyobj \<Rightarrow> pyobj \<Rightarrow> error + pyobj" where
  "append_transfer a at =
     (case getattr (PObj a) ''transferred_annotations'' of
        None \<Rightarrow> Inl AttributeError
      | Some cur \<Rightarrow>
          if truthy cur then
            (case py_append cur (PObj at) of
               Inl e \<Rightarrow> Inl e
             | Inr cur' \<Rightarrow> Inr (setattr a ''transferred_annotations'' cur'))
          else Inr (setattr a ''transferred_annotations'' (PList [PObj at])))"

text \<open>
  Lines 128 to 137: one row. The annotation changed is an element of the list held by
  \<^verbatim>\<open>cta.annotations\<close>, so the change is written back at its position. A test that
  succeeds has read an attribute of an instance, and instances are only drawn from a list.
\<close>

definition transfer_row :: "env \<Rightarrow> pyobj \<Rightarrow> string list \<Rightarrow> sqlval list \<Rightarrow> error + pyobj" where
  "transfer_row E cta columns row =
     (if ''target_node_accession'' \<in> set columns then
        (case cell columns row ''target_node_accession'' of
           Inl e \<Rightarrow> Inl e
         | Inr t \<Rightarrow>
             if truthy_sql t then
               (case getattr (PObj cta) ''annotations'' of
                  None \<Rightarrow> Inl AttributeError
                | Some anns \<Rightarrow>
                    (case py_iter anns of
                       None \<Rightarrow> Inl TypeError
                     | Some as \<Rightarrow>
                         (case annotation_matches as t of
                            Inl e \<Rightarrow> Inl e
                          | Inr bs \<Rightarrow>
                              (case py_index bs True of
                                 None \<Rightarrow> Inr cta
                               | Some k \<Rightarrow>
                                   (case auto_fill_object_from_row E (new_AnnotationTransfer E)
                                           columns row of
                                      (Some e, _) \<Rightarrow> Inl e
                                    | (None, at) \<Rightarrow>
                                        (case as ! k of
                                           PObj a \<Rightarrow>
                                             (case append_transfer a at of
                                                Inl e \<Rightarrow> Inl e
                                              | Inr a' \<Rightarrow>
                                                  Inr (setattr cta ''annotations''
                                                        (PList (as[k := PObj a']))))
                                         | _ \<Rightarrow> Inl AttributeError))))))
             else Inr cta)
      else Inr cta)"

fun transfer_rows :: "env \<Rightarrow> pyobj \<Rightarrow> string list \<Rightarrow> sqlval list list \<Rightarrow> error + pyobj" where
  "transfer_rows E cta columns [] = Inr cta"
| "transfer_rows E cta columns (row # rows) =
     (case transfer_row E cta columns row of
        Inl e \<Rightarrow> Inl e
      | Inr cta' \<Rightarrow> transfer_rows E cta' columns rows)"

definition parse__annotation_transfer_data :: "env \<Rightarrow> database \<Rightarrow> pyobj \<Rightarrow> string \<Rightarrow> error + pyobj" where
  "parse__annotation_transfer_data E db cta table_name =
     (case select_view db table_name of
        Inl e \<Rightarrow> Inl e
      | Inr (columns, rows) \<Rightarrow> transfer_rows E cta columns rows)"

section \<open>The table classifier and the orchestrator\<close>

definition cas_table_postfixes :: "string list" where
  "cas_table_postfixes = [''_annotation'', ''_labelset'', ''_metadata'', ''_annotation_transfer'']"

fun table_rows :: "nat \<Rightarrow> string list \<Rightarrow> sqlval list list \<Rightarrow> error + string list" where
  "table_rows i cas_tables [] = Inr cas_tables"
| "table_rows i cas_tables (row # rows) =
     (if i < length row then
        (if list_ex (endswith (py_str (row ! i))) cas_table_postfixes
         then table_rows i (cas_tables @ [py_str (row ! i)]) rows
         else table_rows i cas_tables rows)
      else Inl IndexError)"

definition get_table_names :: "database \<Rightarrow> error + string list" where
  "get_table_names db =
     (case db ''table_view'' of
        None \<Rightarrow> Inl OperationalError
      | Some (columns, rows) \<Rightarrow>
          (case py_index columns ''table'' of
             None \<Rightarrow> Inl ValueError
           | Some table_column_index \<Rightarrow> table_rows table_column_index [] rows))"

text \<open>Lines 23 to 30: the parser chosen for one table name.\<close>

definition dispatch :: "env \<Rightarrow> database \<Rightarrow> pyobj \<Rightarrow> string \<Rightarrow> error + pyobj" where
  "dispatch E db cta table_name =
     (if endswith table_name ''_metadata'' then
        (case parse_metadata_data E db cta table_name of
           Inl e \<Rightarrow> Inl e
         | Inr (found, cta') \<Rightarrow> Inr cta')
      else if endswith table_name ''_annotation'' then parse_annotation_data E db cta table_name
      else if endswith table_name ''_labelset'' then parse_labelset_data E db cta table_name
      else if endswith table_name ''_annotation_transfer'' then
        parse__annotation_transfer_data E db cta table_name
      else Inr cta)"

fun export_loop :: "env \<Rightarrow> database \<Rightarrow> pyobj \<Rightarrow> string list \<Rightarrow> error + pyobj" where
  "export_loop E db cta [] = Inr cta"
| "export_loop E db cta (table_name # rest) =
     (case dispatch E db cta table_name of
        Inl e \<Rightarrow> Inl e
      | Inr cta' \<Rightarrow> export_loop E db cta' rest)"

text \<open>
  The document \<^verbatim>\<open>export_cas_data\<close> returns; writing it out is the work of the
  external serialiser.
\<close>

definition export_cas_data :: "env \<Rightarrow> database \<Rightarrow> error + pyobj" where
  "export_cas_data E db =
     (case get_table_names db of
        Inl e \<Rightarrow> Inl e
      | Inr cas_tables \<Rightarrow> export_loop E db (new_CellTypeAnnotation E) cas_tables)"

section \<open>Notions used to state the properties, and example data\<close>

text \<open>The names \<^verbatim>\<open>hasattr\<close> finds on an instance, and the keys of its instance dictionary.\<close>

definition attr_names :: "pyobj \<Rightarrow> string set" where
  "attr_names obj = fst ` set (py_vars obj) \<union> fst ` set (class_attrs obj)"

definition var_names :: "pyobj \<Rightarrow> string set" where
  "var_names obj = fst ` set (py_vars obj)"

text \<open>The test of line 172 succeeds: a \<^verbatim>\<open>message\<close> column is there and its value is not empty.\<close>

definition has_message :: "string list \<Rightarrow> sqlval list \<Rightarrow> bool" where
  "has_message columns row =
     (''message'' \<in> set columns \<and>
      (case cell columns row ''message'' of Inl e \<Rightarrow> False | Inr m \<Rightarrow> truthy_sql m))"

text \<open>Example data: three texts of the \<^verbatim>\<open>message\<close> column with what \<^verbatim>\<open>json.loads\<close> returns
  for them, one literal with what \<^verbatim>\<open>ast.literal_eval\<close> returns for it (any other text used
  below is one that the function rejects), and instances with some of the fields of the
  \<^verbatim>\<open>ctat\<close> classes, whose class defines a method and a documentation string.\<close>

definition msg_corrected :: string where
  \<open>msg_corrected = ''[{"column": "cell_label", "value": "Corrected Neuron"}]''\<close>

definition msg_custom :: string where
  \<open>msg_custom = ''[{"column": "custom_field", "value": "bar"}]''\<close>

definition msg_twice :: string where
  \<open>msg_twice = ''[{"column": "cell_label", "value": "x"}, {"column": "cell_label", "value": "y"}]''\<close>

definition ex_json_loads :: "string \<Rightarrow> pyval option" where
  "ex_json_loads s =
     (if s = msg_corrected then
        Some (PList [PDict [(''column'', PStr ''cell_label''), (''value'', PStr ''Corrected Neuron'')]])
      else if s = msg_custom then
        Some (PList [PDict [(''column'', PStr ''custom_field''), (''value'', PStr ''bar'')]])
      else if s = msg_twice then
        Some (PList [PDict [(''column'', PStr ''cell_label''), (''value'', PStr ''x'')],
                     PDict [(''column'', PStr ''cell_label''), (''value'', PStr ''y'')]])
      else None)"

definition ex_literal_eval :: "string \<Rightarrow> pyval option" where
  "ex_literal_eval s = (if s = ''[1,2,3]'' then Some (PList [PInt 1, PInt 2, PInt 3]) else None)"

definition ex_class :: "(string \<times> pyval) list" where
  "ex_class = [(''to_json'', PMethod), (''__doc__'', PNone)]"

definition ex_annotation :: pyobj where
  "ex_annotation =
     (ex_class,
      [(''labelset'', PStr []), (''cell_label'', PStr []), (''cell_set_accession'', PNone),
       (''synonyms'', PNone), (''user_annotations'', PNone), (''transferred_annotations'', PNone)])"

definition ex_env :: env where
  "ex_env = \<lparr>
     literal_eval = ex_literal_eval,
     json_loads = ex_json_loads,
     new_CellTypeAnnotation =
       (ex_class, [(''author_name'', PStr []), (''annotations'', PList []), (''labelsets'', PNone)]),
     new_Annotation = ex_annotation,
     new_Labelset =
       (ex_class, [(''name'', PStr []), (''description'', PStr []), (''automated_annotation'', PNone)]),
     new_AutomatedAnnotation =
       (ex_class, [(''algorithm_name'', PStr []), (''algorithm_version'', PStr []),
                   (''algorithm_repo_url'', PStr []), (''reference_location'', PStr [])]),
     new_AnnotationTransfer =
       (ex_class, [(''transferred_cell_label'', PStr []), (''source_taxonomy'', PStr []),
                   (''source_node_accession'', PStr []), (''algorithm_name'', PStr []),
                   (''comment'', PStr [])]) \<rparr>"

lemmas ex_simps = ex_env_def ex_annotation_def ex_class_def class_attrs_def py_vars_def ex_json_loads_def ex_literal_eval_def msg_corrected_def msg_custom_def msg_twice_def
  auto_fill_object_from_row_def set_positional_def process_message_def cell_def hasattr_def setattr_def
  startswith_def endswith_def

text \<open>An override record whose \<^verbatim>\<open>column\<close> is \<open>k\<close>, and the \<^verbatim>\<open>value\<close> of a record.\<close>

definition names_column :: "string \<Rightarrow> pyval \<Rightarrow> bool" where
  "names_column k msg = (case msg of PDict d \<Rightarrow> map_of d ''column'' = Some (PStr k) | _ \<Rightarrow> False)"

definition override_value :: "pyval \<Rightarrow> pyval option" where
  "override_value msg = (case msg of PDict d \<Rightarrow> map_of d ''value'' | _ \<Rightarrow> None)"

text \<open>The value the specification gives a field from the row value \<open>v\<close> of its column: an empty
  value leaves the field as it was, a bracketed string is read as a literal, any other string
  is taken as it is.\<close>

definition positional_value :: "env \<Rightarrow> sqlval \<Rightarrow> pyval option \<Rightarrow> pyval option" where
  "positional_value E v old =
     (if truthy_sql v then
        (case v of
           SText s \<Rightarrow> if startswith s ''['' \<and> endswith s '']'' then literal_eval E s else Some (PStr s)
         | _ \<Rightarrow> None)
      else old)"

text \<open>The row values on which lines 168 to 171 do not raise: an empty value, or a text that is
  not bracketed or that \<^verbatim>\<open>ast.literal_eval\<close> accepts.\<close>

definition assignable :: "env \<Rightarrow> sqlval \<Rightarrow> bool" where
  "assignable E v =
     (\<not> truthy_sql v \<or>
      (case v of
         SText s \<Rightarrow> \<not> (startswith s ''['' \<and> endswith s '']'') \<or> literal_eval E s \<noteq> None
       | _ \<Rightarrow> False))"


definition ex_columns :: "string list" where
  "ex_columns = [''cell_set_accession'', ''cell_label'', ''custom_field'', ''message'']"

definition ex_row :: "string \<Rightarrow> sqlval list" where
  "ex_row message = [SText ''CS001'', SText ''Neuron'', SText ''foo'', SText message]"

lemmas ex_simps2 = ex_simps ex_columns_def ex_row_def has_message_def attr_names_def var_names_def
  names_column_def override_value_def positional_value_def assignable_def

text \<open>A table name with one of the four recognised suffixes.\<close>

definition is_cas_table :: "string \<Rightarrow> bool" where
  "is_cas_table name =
     (endswith name ''_annotation'' \<or> endswith name ''_labelset'' \<or>
      endswith name ''_metadata'' \<or> endswith name ''_annotation_transfer'')"

text \<open>Example data: a catalog with a repeated table name, and a database with a view for each
  section; \<open>ex_db_more\<close> has one more view, which no table of the catalog names.\<close>

definition ex_catalog :: database where
  "ex_catalog v =
     (if v = ''table_view'' then
        Some ([''table'', ''path''],
              [[SText ''cl_annotation'', SNull], [SText ''prefix'', SNull],
               [SText ''cl_labelset'', SNull], [SText ''cl_annotation'', SNull]])
      else None)"

definition ex_labelset_columns :: "string list" where
  "ex_labelset_columns = [''name'', ''automated_annotation_algorithm_name'',
                          ''automated_annotation_algorithm_version'']"

definition ex_db :: database where
  "ex_db v =
     (if v = ''table_view'' then
        Some ([''table''], [[SText ''cl_metadata''], [SText ''cl_annotation''], [SText ''cl_labelset''],
                           [SText ''cl_annotation_transfer'']])
      else if v = ''cl_metadata_view'' then
        Some ([''author_name'', ''message''], [[SText ''Ann'', SNull]])
      else if v = ''cl_annotation_view'' then
        Some (ex_columns, [ex_row msg_corrected])
      else if v = ''cl_labelset_view'' then
        Some (ex_labelset_columns,
              [[SText ''cluster'', SText [], SText []], [SText ''subclass'', SText ''SciKit-v2'', SText ''1'']])
      else if v = ''cl_annotation_transfer_view'' then
        Some ([''target_node_accession'', ''transferred_cell_label''],
              [[SText ''CS001'', SText ''T cell''], [SText ''CS999'', SText ''B cell'']])
      else None)"



text \<open>The test of line 130 on one annotation, for the row value \<open>t\<close>.\<close>

definition accession_matches :: "sqlval \<Rightarrow> pyval \<Rightarrow> bool" where
  "accession_matches t a =
     (case getattr a ''cell_set_accession'' of None \<Rightarrow> False | Some acc \<Rightarrow> eq_sql acc t)"

text \<open>The document in which the annotation at position \<open>k\<close> of the list is \<open>a\<close> with the given
  list of transfers, and nothing else is changed.\<close>

definition with_transfers :: "pyobj \<Rightarrow> pyval list \<Rightarrow> nat \<Rightarrow> pyobj \<Rightarrow> pyval list \<Rightarrow> pyobj" where
  "with_transfers cta as k a transfers =
     setattr cta ''annotations''
       (PList (as[k := PObj (setattr a ''transferred_annotations'' (PList transfers))]))"

text \<open>Example data: a document in which two annotations share an accession, and an annotation
  row with a column named after a method of the class and one named after its documentation
  string.\<close>

definition ex_annotations :: "pyval list" where
  "ex_annotations =
     [PObj (ex_class, [(''cell_label'', PStr ''Glia''), (''cell_set_accession'', PStr ''CS002''),
                       (''transferred_annotations'', PNone)]),
      PObj (ex_class, [(''cell_label'', PStr ''Neuron''), (''cell_set_accession'', PStr ''CS001''),
                       (''transferred_annotations'', PNone)]),
      PObj (ex_class, [(''cell_label'', PStr ''Neuron bis''), (''cell_set_accession'', PStr ''CS001''),
                       (''transferred_annotations'', PNone)])]"

definition ex_document :: pyobj where
  "ex_document =
     (ex_class,
      [(''author_name'', PStr ''Ann''), (''annotations'', PList ex_annotations), (''labelsets'', PNone)])"



definition ex_db_more :: database where
  "ex_db_more v = (if v = ''notes_view'' then Some ([''note''], [[SText ''draft'']]) else ex_db v)"

definition ex_transfer_columns :: "string list" where
  "ex_transfer_columns = [''target_node_accession'', ''transferred_cell_label'']"

definition ex_transfer :: pyobj where
  "ex_transfer =
     (ex_class, [(''transferred_cell_label'', PStr ''T cell''), (''source_taxonomy'', PStr []),
                 (''source_node_accession'', PStr []), (''algorithm_name'', PStr []),
                 (''comment'', PStr [])])"

section \<open>The row mapper: attribute names\<close>

lemma names_chain:
  "A \<subseteq> B \<and> B \<subseteq> A \<union> C \<Longrightarrow> B \<subseteq> D \<and> D \<subseteq> B \<union> C \<Longrightarrow> A \<subseteq> D \<and> D \<subseteq> A \<union> (C::'a set)"
  by blast

lemma class_attrs_setattr: "class_attrs (setattr obj k v) = class_attrs obj"
  by (simp add: setattr_def class_attrs_def)

lemma py_vars_setattr: "py_vars (setattr obj k v) = AList.update k v (py_vars obj)"
  by (simp add: setattr_def py_vars_def)

lemma attr_names_setattr: "attr_names (setattr obj k v) = insert k (attr_names obj)"
  by (simp add: attr_names_def class_attrs_setattr py_vars_setattr dom_update)



lemma hasattr_names: "hasattr obj k \<longleftrightarrow> k \<in> attr_names obj"
  by (auto simp: hasattr_def attr_names_def map_of_eq_None_iff)

lemma var_names_attr_names: "var_names obj \<subseteq> attr_names obj"
  by (auto simp: var_names_def attr_names_def)

lemma set_positional_names: "attr_names (snd (set_positional E obj columns row c)) = attr_names obj"
  by (auto simp: set_positional_def attr_names_setattr hasattr_names split: sum.splits sqlval.splits option.splits)



lemma apply_message_grows:
  assumes N: "\<And>obj k v. N (setattr obj k v) = insert k (N obj)"
  shows "N obj \<subseteq> N (snd (apply_message columns obj msg)) \<and>
         N (snd (apply_message columns obj msg)) \<subseteq> N obj \<union> set columns"
  by (cases msg) (auto simp: N split: option.splits pyval.splits)


lemma apply_messages_step:
  "apply_messages columns obj (msg # msgs) =
     (if fst (apply_message columns obj msg) \<noteq> None then apply_message columns obj msg
      else apply_messages columns (snd (apply_message columns obj msg)) msgs)"
  by (auto split: prod.splits option.splits)

lemma apply_messages_grows:
  assumes N: "\<And>obj k v. N (setattr obj k v) = insert k (N obj)"
  shows "N obj \<subseteq> N (snd (apply_messages columns obj msgs)) \<and>
         N (snd (apply_messages columns obj msgs)) \<subseteq> N obj \<union> set columns"
proof (induction msgs arbitrary: obj)
  case Nil
  show ?case by simp
next
  case (Cons msg msgs)
  let ?o1 = "snd (apply_message columns obj msg)"
  have k1: "N obj \<subseteq> N ?o1 \<and> N ?o1 \<subseteq> N obj \<union> set columns"
    by (rule apply_message_grows [OF N])
  have k2: "N obj \<subseteq> N (snd (apply_messages columns ?o1 msgs)) \<and>
            N (snd (apply_messages columns ?o1 msgs)) \<subseteq> N obj \<union> set columns"
    by (rule names_chain [OF k1 Cons.IH [of ?o1]])
  show ?case
    using k1 k2 by (simp only: apply_messages_step split: if_split) simp
qed


lemma process_message_cases:
  "snd (process_message E obj columns row) = obj \<or>
   (\<exists>msgs. snd (process_message E obj columns row) = snd (apply_messages columns obj msgs))"
  by (auto simp: process_message_def split: sum.splits sqlval.splits option.splits)

lemma process_message_grows:
  assumes N: "\<And>obj k v. N (setattr obj k v) = insert k (N obj)"
  shows "N obj \<subseteq> N (snd (process_message E obj columns row)) \<and>
         N (snd (process_message E obj columns row)) \<subseteq> N obj \<union> set columns"
  using process_message_cases [of E obj columns row]
proof
  assume "snd (process_message E obj columns row) = obj"
  then show ?thesis by simp
next
  assume "\<exists>msgs. snd (process_message E obj columns row) = snd (apply_messages columns obj msgs)"
  then obtain msgs where "snd (process_message E obj columns row) = snd (apply_messages columns obj msgs)" ..
  then show ?thesis using apply_messages_grows [OF N, of obj columns msgs] by simp
qed



lemma fill_loop_step:
  "fill_loop E columns row obj (c # cs) =
     (if fst (set_positional E obj columns row c) \<noteq> None
      then set_positional E obj columns row c
      else if fst (process_message E (snd (set_positional E obj columns row c)) columns row) \<noteq> None
      then process_message E (snd (set_positional E obj columns row c)) columns row
      else fill_loop E columns row
             (snd (process_message E (snd (set_positional E obj columns row c)) columns row)) cs)"
  by (auto split: prod.splits option.splits)











section \<open>The row mapper: overrides\<close>










section \<open>The row mapper: positional values\<close>

lemma py_index_Some: "py_index xs x = Some i \<Longrightarrow> i < length xs \<and> xs ! i = x"
proof (induction xs arbitrary: i)
  case Nil
  then show ?case by simp
next
  case (Cons y ys)
  show ?case
  proof (cases "y = x")
    case True
    with Cons.prems show ?thesis by simp
  next
    case False
    with Cons.prems obtain j where j: "py_index ys x = Some j" and i: "i = Suc j"
      by auto
    from Cons.IH [OF j] i show ?thesis by simp
  qed
qed

lemma py_index_absent: "x \<notin> set xs \<Longrightarrow> py_index xs x = None"
  by (induction xs) auto




lemma hasattr_getattr: "hasattr obj c \<longleftrightarrow> getattr (PObj obj) c \<noteq> None"
  by (auto simp: hasattr_def split: option.splits)

lemma startswith_nonempty: "startswith s ''['' \<Longrightarrow> s \<noteq> []"
  by (auto simp: startswith_def)










section \<open>The row mapper: exceptions\<close>

lemma process_message_undecodable:
  assumes "''message'' \<in> set columns" "cell columns row ''message'' = Inr m" "truthy_sql m"
    "\<forall>s. m = SText s \<longrightarrow> json_loads E s = None"
  shows "fst (process_message E obj columns row) \<noteq> None \<and> snd (process_message E obj columns row) = obj"
  using assms by (cases m) (simp_all add: process_message_def)

text \<open>
  Claim C8. When the \<^verbatim>\<open>message\<close> value of the row is not empty and does not decode, the row
  mapper raises, and the entity is left as the positional assignment of the first column
  left it: no override record has been applied.
\<close>

theorem undecodable_message_raises:
  assumes "''message'' \<in> set columns"
    and "cell columns row ''message'' = Inr m"
    and "truthy_sql m"
    and "\<forall>s. m = SText s \<longrightarrow> json_loads E s = None"
  shows "fst (auto_fill_object_from_row E obj columns row) \<noteq> None \<and>
         snd (auto_fill_object_from_row E obj columns row) = snd (set_positional E obj columns row (hd columns))"
proof -
  from assms(1) obtain c cs where cs: "columns = c # cs" by (cases columns) auto
  let ?o1 = "snd (set_positional E obj columns row c)"
  have pm: "fst (process_message E ?o1 columns row) \<noteq> None \<and> snd (process_message E ?o1 columns row) = ?o1"
    by (rule process_message_undecodable [OF assms])
  have "fill_loop E columns row obj (c # cs) =
          (if fst (set_positional E obj columns row c) \<noteq> None then set_positional E obj columns row c
           else process_message E ?o1 columns row)"
    using pm by (simp only: fill_loop_step split: if_split) simp
  then have "fst (fill_loop E columns row obj (c # cs)) \<noteq> None \<and> snd (fill_loop E columns row obj (c # cs)) = ?o1"
    using pm by (simp split: if_splits)
  then show ?thesis
    unfolding auto_fill_object_from_row_def using cs by simp
qed

theorem undecodable_message_raises_witness:
  "auto_fill_object_from_row ex_env ex_annotation [''cell_label'', ''message''] [SText ''Neuron'', SText ''{not json'']
     = (Some JSONDecodeError,
        (ex_class,
         [(''labelset'', PStr []), (''cell_label'', PStr ''Neuron''), (''cell_set_accession'', PNone),
          (''synonyms'', PNone), (''user_annotations'', PNone), (''transferred_annotations'', PNone)]))"
proof -
  let ?cols = "[''cell_label'', ''message'']"
  let ?row = "[SText ''Neuron'', SText ''{not json'']"
  have h1: "''message'' \<in> set ?cols" by simp
  have h2: "cell ?cols ?row ''message'' = Inr (SText ''{not json'')" by (simp add: ex_simps2)
  have h3: "truthy_sql (SText ''{not json'')" by simp
  have h4: "\<forall>s. SText ''{not json'' = SText s \<longrightarrow> json_loads ex_env s = None" by (simp add: ex_simps2)
  from undecodable_message_raises [OF h1 h2 h3 h4, of ex_annotation]
  show ?thesis by (simp add: ex_simps2)
qed

lemma set_positional_bad:
  assumes "hasattr obj c" "cell columns row c = Inr (SText s)" "startswith s ''[''" "endswith s '']''"
    "literal_eval E s = None"
  shows "set_positional E obj columns row c = (Some LiteralEvalError, obj)"
  using assms startswith_nonempty [OF assms(3)] by (simp add: set_positional_def)

lemma fill_loop_bad:
  assumes "cell columns row c = Inr (SText s)" "startswith s ''[''" "endswith s '']''"
    "literal_eval E s = None"
  shows "c \<in> set cs \<Longrightarrow> hasattr obj c \<Longrightarrow> fst (fill_loop E columns row obj cs) \<noteq> None"
proof (induction cs arbitrary: obj)
  case Nil
  then show ?case by simp
next
  case (Cons c0 cs)
  let ?o1 = "snd (set_positional E obj columns row c0)"
  let ?o2 = "snd (process_message E ?o1 columns row)"
  have "attr_names ?o1 \<subseteq> attr_names ?o2"
    using process_message_grows [of attr_names, OF attr_names_setattr, of ?o1 E columns row] by simp
  then have h2: "hasattr ?o2 c"
    using Cons.prems(2) set_positional_names [of E obj columns row c0]
    by (auto simp: hasattr_names)
  show ?case
  proof (cases "c = c0")
    case True
    then have "set_positional E obj columns row c0 = (Some LiteralEvalError, obj)"
      using set_positional_bad [OF Cons.prems(2) assms] by simp
    then show ?thesis by simp
  next
    case False
    with Cons.prems(1) have "c \<in> set cs" by simp
    from Cons.IH [OF this h2] show ?thesis
      by (simp only: fill_loop_step split: if_split) simp
  qed
qed

text \<open>
  Claim C10. A bracketed string that \<^verbatim>\<open>ast.literal_eval\<close> rejects, in a column that matches
  a field of the entity, makes the assignment of that column raise with the entity unchanged
  (the string is not assigned), and so the row mapper raises.
\<close>

theorem bad_literal_raises:
  assumes "c \<in> set columns"
    and "hasattr obj c"
    and "cell columns row c = Inr (SText s)"
    and "startswith s ''[''" and "endswith s '']''"
    and "literal_eval E s = None"
  shows "set_positional E obj columns row c = (Some LiteralEvalError, obj) \<and>
         fst (auto_fill_object_from_row E obj columns row) \<noteq> None"
  using set_positional_bad [OF assms(2-6)] fill_loop_bad [OF assms(3-6) assms(1,2)]
  by (simp add: auto_fill_object_from_row_def)

theorem bad_literal_raises_witness:
  "auto_fill_object_from_row ex_env ex_annotation [''cell_label'', ''synonyms''] [SText ''Neuron'', SText ''[not, valid]'']
     = (Some LiteralEvalError,
        (ex_class,
         [(''labelset'', PStr []), (''cell_label'', PStr ''Neuron''), (''cell_set_accession'', PNone),
          (''synonyms'', PNone), (''user_annotations'', PNone), (''transferred_annotations'', PNone)]))"
proof -
  let ?cols = "[''cell_label'', ''synonyms'']"
  let ?row = "[SText ''Neuron'', SText ''[not, valid]'']"
  have h1: "''synonyms'' \<in> set ?cols" by simp
  have h2: "hasattr ex_annotation ''synonyms''" by (simp add: ex_simps2)
  have h3: "cell ?cols ?row ''synonyms'' = Inr (SText ''[not, valid]'')" by (simp add: ex_simps2)
  have h4: "startswith ''[not, valid]'' ''[''" by (simp add: ex_simps2)
  have h5: "endswith ''[not, valid]'' '']''" by (simp add: ex_simps2)
  have h6: "literal_eval ex_env ''[not, valid]'' = None" by (simp add: ex_simps2)
  from bad_literal_raises [OF h1 h2 h3 h4 h5 h6]
  show ?thesis by (simp add: ex_simps2)
qed

section \<open>The table classifier and the orchestrator\<close>

lemma list_ex_postfixes: "list_ex (endswith s) cas_table_postfixes = is_cas_table s"
  by (simp add: cas_table_postfixes_def is_cas_table_def)

lemma table_rows_filter:
  "\<forall>r \<in> set rows. i < length r \<Longrightarrow>
   table_rows i cas_tables rows = Inr (cas_tables @ filter is_cas_table (map (\<lambda>r. py_str (r ! i)) rows))"
proof (induction rows arbitrary: cas_tables)
  case Nil
  show ?case by simp
next
  case (Cons row rows)
  then have i: "i < length row" and rest: "\<forall>r \<in> set rows. i < length r"
    by simp_all
  show ?case
    using i Cons.IH [OF rest] by (simp add: list_ex_postfixes)
qed

text \<open>
  Claim C7. When the catalog view has a \<^verbatim>\<open>table\<close> column (and its rows have one value per
  column), \<^verbatim>\<open>get_table_names\<close> returns the names of the rows that end with one of the
  four suffixes, in the order of the rows and with repetitions kept.
\<close>

theorem get_table_names_filter:
  assumes "db ''table_view'' = Some (columns, rows)"
    and "py_index columns ''table'' = Some i"
    and "\<forall>r \<in> set rows. length r = length columns"
  shows "get_table_names db = Inr (filter is_cas_table (map (\<lambda>r. py_str (r ! i)) rows))"
proof -
  from py_index_Some [OF assms(2)] have "i < length columns" by simp
  with assms(3) have "\<forall>r \<in> set rows. i < length r" by simp
  from table_rows_filter [OF this, of "[]"] show ?thesis
    using assms(1,2) by (simp add: get_table_names_def)
qed

theorem get_table_names_filter_witness:
  "get_table_names ex_catalog = Inr [''cl_annotation'', ''cl_labelset'', ''cl_annotation'']"
proof -
  let ?rows = "[[SText ''cl_annotation'', SNull], [SText ''prefix'', SNull],
               [SText ''cl_labelset'', SNull], [SText ''cl_annotation'', SNull]]"
  have h1: "ex_catalog ''table_view'' = Some ([''table'', ''path''], ?rows)"
    by (simp add: ex_catalog_def)
  have h2: "py_index [''table'', ''path''] ''table'' = Some 0" by simp
  have h3: "\<forall>r \<in> set ?rows. length r = length [''table'', ''path'']" by simp
  from get_table_names_filter [of ex_catalog "[''table'', ''path'']" ?rows 0, OF h1 h2 h3] show ?thesis
    by (simp add: is_cas_table_def endswith_def)
qed

lemma select_view_cong:
  "db1 (t @ ''_view'') = db2 (t @ ''_view'') \<Longrightarrow> select_view db1 t = select_view db2 t"
  by (simp add: select_view_def)

lemma dispatch_cong:
  assumes "db1 (t @ ''_view'') = db2 (t @ ''_view'')"
  shows "dispatch E db1 cta t = dispatch E db2 cta t"
  unfolding dispatch_def parse_metadata_data_def parse_annotation_data_def parse_labelset_data_def
    parse__annotation_transfer_data_def select_view_cong [of db1 t db2, OF assms] ..

lemma export_loop_cong:
  "\<forall>t \<in> set ts. db1 (t @ ''_view'') = db2 (t @ ''_view'') \<Longrightarrow>
   export_loop E db1 cta ts = export_loop E db2 cta ts"
proof (induction ts arbitrary: cta)
  case Nil
  show ?case by simp
next
  case (Cons t ts)
  then have h: "db1 (t @ ''_view'') = db2 (t @ ''_view'')"
    and rest: "\<forall>t \<in> set ts. db1 (t @ ''_view'') = db2 (t @ ''_view'')"
    by simp_all
  show ?case
    using Cons.IH [OF rest] by (simp add: dispatch_cong [of db1 t db2, OF h] split: sum.splits)
qed

lemma get_table_names_cong:
  "db1 ''table_view'' = db2 ''table_view'' \<Longrightarrow> get_table_names db1 = get_table_names db2"
  by (simp add: get_table_names_def)

text \<open>
  Claim C9. The outcome of \<^verbatim>\<open>export_cas_data\<close> is determined by the catalog view and the
  views of the tables the classifier returns: two runs on database states that agree on
  these (columns, rows and their order) give the same document, field for field, or the
  same exception.
\<close>

theorem export_cas_data_deterministic:
  assumes "db1 ''table_view'' = db2 ''table_view''"
    and "\<forall>t. (\<exists>ts. get_table_names db1 = Inr ts \<and> t \<in> set ts) \<longrightarrow> db1 (t @ ''_view'') = db2 (t @ ''_view'')"
  shows "export_cas_data E db1 = export_cas_data E db2"
proof (cases "get_table_names db1")
  case (Inl e)
  then show ?thesis
    using get_table_names_cong [of db1 db2, OF assms(1)] by (simp add: export_cas_data_def)
next
  case (Inr ts)
  with assms(2) have "\<forall>t \<in> set ts. db1 (t @ ''_view'') = db2 (t @ ''_view'')"
    by blast
  from export_loop_cong [of ts db1 db2, OF this] Inr show ?thesis
    using get_table_names_cong [of db1 db2, OF assms(1)] by (simp add: export_cas_data_def)
qed

theorem export_cas_data_deterministic_witness:
  "ex_db ''notes_view'' \<noteq> ex_db_more ''notes_view'' \<and>
   export_cas_data ex_env ex_db = export_cas_data ex_env ex_db_more"
proof -
  have g: "get_table_names ex_db =
             Inr [''cl_metadata'', ''cl_annotation'', ''cl_labelset'', ''cl_annotation_transfer'']"
    by code_simp
  have h1: "ex_db ''table_view'' = ex_db_more ''table_view''"
    by (simp add: ex_db_more_def)
  have h2: "\<forall>t. (\<exists>ts. get_table_names ex_db = Inr ts \<and> t \<in> set ts)
               \<longrightarrow> ex_db (t @ ''_view'') = ex_db_more (t @ ''_view'')"
    by (auto simp: g ex_db_more_def)
  have d: "ex_db ''notes_view'' \<noteq> ex_db_more ''notes_view''"
    by (simp add: ex_db_more_def ex_db_def)
  from export_cas_data_deterministic [of ex_db ex_db_more ex_env, OF h1 h2] d show ?thesis by simp
qed

section \<open>The labelset and annotation parsers\<close>

lemma labelset_row_present_column:
  assumes "auto_fill_object_from_row E (new_Labelset E) columns row = (None, labelset)"
    and "cell (renamed_columns columns) row ''algorithm_name'' = Inr v"
  shows "labelset_row E columns row =
           (if truthy_sql v then
              (case auto_fill_object_from_row E (new_AutomatedAnnotation E) (renamed_columns columns) row of
                 (Some e, aa) \<Rightarrow> Inl e
               | (None, aa) \<Rightarrow> Inr (setattr labelset ''automated_annotation'' (PObj aa)))
            else Inr labelset)"
  using assms by (simp add: labelset_row_def)

lemma labelset_row_examples:
  "labelset_row ex_env ex_labelset_columns [SText ''cluster'', SText [], SText []]
     = Inr (ex_class, [(''name'', PStr ''cluster''), (''description'', PStr []),
                       (''automated_annotation'', PNone)])
   \<and> labelset_row ex_env ex_labelset_columns [SText ''subclass'', SText ''SciKit-v2'', SText ''1'']
     = Inr (ex_class,
            [(''name'', PStr ''subclass''), (''description'', PStr []),
             (''automated_annotation'',
                PObj (ex_class,
                      [(''algorithm_name'', PStr ''SciKit-v2''), (''algorithm_version'', PStr ''1''),
                       (''algorithm_repo_url'', PStr []), (''reference_location'', PStr [])]))])"
  by code_simp

text \<open>
  Claim C3. The claim has a labelset row without the prefix-stripped \<^verbatim>\<open>algorithm_name\<close> column
  yield a Labelset with no AutomatedAnnotation and no error. The lookup of line 107 has no
  test of presence (lines 128 and 172 have one): on such a row, once the row mapper has
  filled the Labelset, \<^verbatim>\<open>renamed_columns.index\<close> raises ValueError.
\<close>

theorem labelset_row_absent_column:
  assumes "auto_fill_object_from_row E (new_Labelset E) columns row = (None, labelset)"
    and "''algorithm_name'' \<notin> set (renamed_columns columns)"
  shows "labelset_row E columns row = Inl ValueError"
  using assms(1) py_index_absent [OF assms(2)] by (simp add: labelset_row_def cell_def)

theorem labelset_row_absent_column_witness:
  "auto_fill_object_from_row ex_env (new_Labelset ex_env) [''name''] [SText ''cluster'']
     = (None, (ex_class, [(''name'', PStr ''cluster''), (''description'', PStr []),
                          (''automated_annotation'', PNone)])) \<and>
   ''algorithm_name'' \<notin> set (renamed_columns [''name'']) \<and>
   labelset_row ex_env [''name''] [SText ''cluster''] = Inl ValueError"
proof -
  have h1: "auto_fill_object_from_row ex_env (new_Labelset ex_env) [''name''] [SText ''cluster'']
     = (None, (ex_class, [(''name'', PStr ''cluster''), (''description'', PStr []),
                          (''automated_annotation'', PNone)]))"
    by (simp add: ex_simps)
  have "renamed_columns [''name''] = [''name'']" by code_simp
  then have h2: "''algorithm_name'' \<notin> set (renamed_columns [''name''])" by simp
  from labelset_row_absent_column [OF h1 h2] h1 h2 show ?thesis by (simp only: simp_thms)
qed







section \<open>The annotation transfer parser: linking\<close>

lemma py_index_first:
  "k < length xs \<Longrightarrow> xs ! k = x \<Longrightarrow> \<forall>j<k. xs ! j \<noteq> x \<Longrightarrow> py_index xs x = Some k"
proof (induction xs arbitrary: k)
  case Nil
  then show ?case by simp
next
  case (Cons y ys)
  show ?case
  proof (cases k)
    case 0
    with Cons.prems show ?thesis by simp
  next
    case (Suc m)
    with Cons.prems have m: "m < length ys" "ys ! m = x" by simp_all
    from Cons.prems(3) Suc have y: "y \<noteq> x" by auto
    have "\<forall>j<m. ys ! j \<noteq> x"
    proof (intro allI impI)
      fix j assume "j < m"
      then have "Suc j < k" using Suc by simp
      with Cons.prems(3) have "(y # ys) ! Suc j \<noteq> x" by blast
      then show "ys ! j \<noteq> x" by simp
    qed
    from Cons.IH [OF m this] y Suc show ?thesis by simp
  qed
qed

lemma annotation_matches_all:
  "\<forall>a \<in> set as. getattr a ''cell_set_accession'' \<noteq> None \<Longrightarrow>
   annotation_matches as t = Inr (map (accession_matches t) as)"
  by (induction as) (auto simp: accession_matches_def)

lemma append_transfer_cases:
  "append_transfer a at =
     (case getattr (PObj a) ''transferred_annotations'' of
        None \<Rightarrow> Inl AttributeError
      | Some cur \<Rightarrow>
          if \<not> truthy cur then Inr (setattr a ''transferred_annotations'' (PList [PObj at]))
          else (case cur of
                  PList xs \<Rightarrow> Inr (setattr a ''transferred_annotations'' (PList (xs @ [PObj at])))
                | _ \<Rightarrow> Inl AttributeError))"
  unfolding append_transfer_def
  by (cases "getattr (PObj a) ''transferred_annotations''"; simp del: getattr.simps)
     (rename_tac cur, case_tac cur; simp)

lemma transfer_row_at_first_match:
  assumes "''target_node_accession'' \<in> set columns"
    and "cell columns row ''target_node_accession'' = Inr t"
    and "truthy_sql t"
    and "getattr (PObj cta) ''annotations'' = Some (PList as)"
    and "\<forall>a \<in> set as. getattr a ''cell_set_accession'' \<noteq> None"
    and "k < length as" and "as ! k = PObj a" and "accession_matches t (as ! k)"
    and "\<forall>j<k. \<not> accession_matches t (as ! j)"
  shows "transfer_row E cta columns row =
           (case auto_fill_object_from_row E (new_AnnotationTransfer E) columns row of
              (Some e, at) \<Rightarrow> Inl e
            | (None, at) \<Rightarrow>
                (case append_transfer a at of
                   Inl e \<Rightarrow> Inl e
                 | Inr a' \<Rightarrow> Inr (setattr cta ''annotations'' (PList (as[k := PObj a'])))))"
proof -
  have m: "annotation_matches as t = Inr (map (accession_matches t) as)"
    by (rule annotation_matches_all [OF assms(5)])
  have k: "k < length (map (accession_matches t) as)"
    using assms(6) by simp
  have kk: "map (accession_matches t) as ! k = True"
    using assms(6,8) by simp
  have first: "\<forall>j<k. map (accession_matches t) as ! j \<noteq> True"
    using assms(6,9) by simp
  have i: "py_index (map (accession_matches t) as) True = Some k"
    by (rule py_index_first [OF k kk first])
  show ?thesis
    using assms(1-4,7) m i
    by (simp add: transfer_row_def del: getattr.simps split: prod.splits option.splits)
qed

text \<open>
  Claim C6, as the code has it. For a transfer row whose \<^verbatim>\<open>target_node_accession\<close> is present
  and not empty, in a document whose annotations all carry a \<^verbatim>\<open>cell_set_accession\<close>: when
  no annotation matches, the document is returned unchanged and nothing is raised. When
  \<open>k\<close> is the first position of a matching annotation, the row mapper fills an
  AnnotationTransfer from the row: an exception of the mapper is raised and nothing is
  appended; otherwise the transfer is appended to the transfers of that annotation (a list
  of this one transfer when the attribute was empty) and nothing else in the document
  changes, or AttributeError is raised when the attribute is missing or holds a non-empty
  value that is not a list.
\<close>

theorem transfer_row_first_match:
  assumes "''target_node_accession'' \<in> set columns"
    and "cell columns row ''target_node_accession'' = Inr t"
    and "truthy_sql t"
    and "getattr (PObj cta) ''annotations'' = Some (PList as)"
    and "\<forall>a \<in> set as. getattr a ''cell_set_accession'' \<noteq> None"
  shows "((\<forall>a \<in> set as. \<not> accession_matches t a) \<longrightarrow> transfer_row E cta columns row = Inr cta) \<and>
         (\<forall>k a. k < length as \<and> as ! k = PObj a \<and> accession_matches t (as ! k) \<and>
                 (\<forall>j<k. \<not> accession_matches t (as ! j)) \<longrightarrow>
            (\<forall>e st. auto_fill_object_from_row E (new_AnnotationTransfer E) columns row = (Some e, st)
               \<longrightarrow> transfer_row E cta columns row = Inl e) \<and>
            (\<forall>at. auto_fill_object_from_row E (new_AnnotationTransfer E) columns row = (None, at) \<longrightarrow>
               (getattr (PObj a) ''transferred_annotations'' = None
                  \<longrightarrow> transfer_row E cta columns row = Inl AttributeError) \<and>
               (\<forall>cur. getattr (PObj a) ''transferred_annotations'' = Some cur \<longrightarrow>
                  (\<not> truthy cur \<longrightarrow>
                     transfer_row E cta columns row = Inr (with_transfers cta as k a [PObj at])) \<and>
                  (\<forall>xs. cur = PList xs \<and> xs \<noteq> [] \<longrightarrow>
                     transfer_row E cta columns row = Inr (with_transfers cta as k a (xs @ [PObj at]))) \<and>
                  (truthy cur \<and> (\<forall>xs. cur \<noteq> PList xs) \<longrightarrow>
                     transfer_row E cta columns row = Inl AttributeError))))"
proof (intro conjI allI impI)
  have m: "annotation_matches as t = Inr (map (accession_matches t) as)"
    by (rule annotation_matches_all [OF assms(5)])
  {
    assume "\<forall>a \<in> set as. \<not> accession_matches t a"
    then have "True \<notin> set (map (accession_matches t) as)" by auto
    then have "py_index (map (accession_matches t) as) True = None"
      by (rule py_index_absent)
    then show "transfer_row E cta columns row = Inr cta"
      using assms(1-4) m by (simp add: transfer_row_def del: getattr.simps)
  }
  fix k a
  assume h: "k < length as \<and> as ! k = PObj a \<and> accession_matches t (as ! k) \<and>
                 (\<forall>j<k. \<not> accession_matches t (as ! j))"
  then have h1: "k < length as" and h2: "as ! k = PObj a" and h3: "accession_matches t (as ! k)"
    and h4: "\<forall>j<k. \<not> accession_matches t (as ! j)"
    by blast+
  note r = transfer_row_at_first_match [OF assms h1 h2 h3 h4, of E]
  {
    fix e st
    assume "auto_fill_object_from_row E (new_AnnotationTransfer E) columns row = (Some e, st)"
    then show "transfer_row E cta columns row = Inl e"
      using r by simp
  }
  fix at
  assume f: "auto_fill_object_from_row E (new_AnnotationTransfer E) columns row = (None, at)"
  have r2: "transfer_row E cta columns row =
                (case append_transfer a at of
                   Inl e \<Rightarrow> Inl e
                 | Inr a' \<Rightarrow> Inr (setattr cta ''annotations'' (PList (as[k := PObj a']))))"
    using r f by simp
  {
    assume "getattr (PObj a) ''transferred_annotations'' = None"
    then show "transfer_row E cta columns row = Inl AttributeError"
      unfolding r2 append_transfer_cases by simp
  }
  fix cur
  assume c: "getattr (PObj a) ''transferred_annotations'' = Some cur"
  {
    assume "\<not> truthy cur"
    then show "transfer_row E cta columns row = Inr (with_transfers cta as k a [PObj at])"
      unfolding r2 append_transfer_cases c with_transfers_def by simp
  }
  {
    fix xs
    assume "cur = PList xs \<and> xs \<noteq> []"
    then show "transfer_row E cta columns row = Inr (with_transfers cta as k a (xs @ [PObj at]))"
      unfolding r2 append_transfer_cases c with_transfers_def by simp
  }
  {
    assume "truthy cur \<and> (\<forall>xs. cur \<noteq> PList xs)"
    then show "transfer_row E cta columns row = Inl AttributeError"
      unfolding r2 append_transfer_cases c by (cases cur) simp_all
  }
qed

theorem transfer_row_raises_counterexample:
  "cell [''target_node_accession'', ''comment''] [SText ''CS001'', SInt 7] ''target_node_accession''
     = Inr (SText ''CS001'') \<and>
   getattr (PObj ex_document) ''annotations'' = Some (PList ex_annotations) \<and>
   accession_matches (SText ''CS001'') (ex_annotations ! 1) \<and>
   transfer_row ex_env ex_document [''target_node_accession'', ''comment''] [SText ''CS001'', SInt 7]
     = Inl AttributeError"
  by (simp add: ex_simps transfer_row_def ex_document_def ex_annotations_def accession_matches_def)

theorem transfer_row_first_match_witness:
  "transfer_row ex_env ex_document ex_transfer_columns [SText ''CS999'', SText ''B cell''] = Inr ex_document \<and>
   transfer_row ex_env ex_document ex_transfer_columns [SText ''CS001'', SText ''T cell''] =
     Inr (ex_class,
          [(''author_name'', PStr ''Ann''),
           (''annotations'',
              PList [PObj (ex_class, [(''cell_label'', PStr ''Glia''), (''cell_set_accession'', PStr ''CS002''),
                                      (''transferred_annotations'', PNone)]),
                     PObj (ex_class, [(''cell_label'', PStr ''Neuron''), (''cell_set_accession'', PStr ''CS001''),
                                      (''transferred_annotations'', PList [PObj ex_transfer])]),
                     PObj (ex_class, [(''cell_label'', PStr ''Neuron bis''),
                                      (''cell_set_accession'', PStr ''CS001''),
                                      (''transferred_annotations'', PNone)])]),
           (''labelsets'', PNone)])"
proof -
  let ?a = "(ex_class, [(''cell_label'', PStr ''Neuron''), (''cell_set_accession'', PStr ''CS001''),
                        (''transferred_annotations'', PNone)])"
  let ?r1 = "[SText ''CS999'', SText ''B cell'']"
  let ?r2 = "[SText ''CS001'', SText ''T cell'']"
  have h1: "''target_node_accession'' \<in> set ex_transfer_columns"
    by (simp add: ex_transfer_columns_def)
  have h2: "cell ex_transfer_columns ?r1 ''target_node_accession'' = Inr (SText ''CS999'')"
    by (simp add: ex_transfer_columns_def cell_def)
  have h2': "cell ex_transfer_columns ?r2 ''target_node_accession'' = Inr (SText ''CS001'')"
    by (simp add: ex_transfer_columns_def cell_def)
  have h3: "truthy_sql (SText ''CS999'')" "truthy_sql (SText ''CS001'')" by simp_all
  have h4: "getattr (PObj ex_document) ''annotations'' = Some (PList ex_annotations)"
    by (simp add: ex_document_def py_vars_def)
  have h5: "\<forall>a \<in> set ex_annotations. getattr a ''cell_set_accession'' \<noteq> None"
    by (simp add: ex_annotations_def py_vars_def)
  have n: "\<forall>a \<in> set ex_annotations. \<not> accession_matches (SText ''CS999'') a"
    by (simp add: accession_matches_def ex_annotations_def py_vars_def)
  have first: "transfer_row ex_env ex_document ex_transfer_columns ?r1 = Inr ex_document"
    by (rule mp [OF conjunct1 [OF transfer_row_first_match [OF h1 h2 h3(1) h4 h5, of ex_env]] n])
  have f: "auto_fill_object_from_row ex_env (new_AnnotationTransfer ex_env) ex_transfer_columns ?r2
             = (None, ex_transfer)"
    by (simp add: ex_simps ex_transfer_columns_def ex_transfer_def)
  have p: "Suc 0 < length ex_annotations \<and> ex_annotations ! Suc 0 = PObj ?a \<and>
           accession_matches (SText ''CS001'') (ex_annotations ! Suc 0) \<and>
           (\<forall>j<Suc 0. \<not> accession_matches (SText ''CS001'') (ex_annotations ! j))"
    by (simp add: accession_matches_def ex_annotations_def py_vars_def)
  have c: "getattr (PObj ?a) ''transferred_annotations'' = Some PNone"
    by (simp add: py_vars_def)
  have t: "\<not> truthy PNone" by simp
  note s1 = conjunct2 [OF transfer_row_first_match [OF h1 h2' h3(2) h4 h5, of ex_env], rule_format, OF p]
  note s2 = conjunct2 [OF s1, rule_format, OF f]
  note s3 = conjunct2 [OF s2, rule_format, OF c]
  have "transfer_row ex_env ex_document ex_transfer_columns ?r2 =
          Inr (with_transfers ex_document ex_annotations (Suc 0) ?a [PObj ex_transfer])"
    by (rule conjunct1 [OF s3, rule_format, OF t])
  then have second: "transfer_row ex_env ex_document ex_transfer_columns ?r2 =
     Inr (ex_class,
          [(''author_name'', PStr ''Ann''),
           (''annotations'',
              PList [PObj (ex_class, [(''cell_label'', PStr ''Glia''), (''cell_set_accession'', PStr ''CS002''),
                                      (''transferred_annotations'', PNone)]),
                     PObj (ex_class, [(''cell_label'', PStr ''Neuron''), (''cell_set_accession'', PStr ''CS001''),
                                      (''transferred_annotations'', PList [PObj ex_transfer])]),
                     PObj (ex_class, [(''cell_label'', PStr ''Neuron bis''),
                                      (''cell_set_accession'', PStr ''CS001''),
                                      (''transferred_annotations'', PNone)])]),
           (''labelsets'', PNone)])"
    by (simp add: with_transfers_def setattr_def ex_document_def ex_annotations_def py_vars_def class_attrs_def)
  from first second show ?thesis by simp
qed

end
